theory Spec2Isabelle
  imports Main "HOL-Library.Word"
begin

section \<open>Hexadecimal string utilities (ethereum/utils/hexadecimal.py)\<close>

text \<open>
  The module converts hexadecimal text into byte sequences and unsigned integers.
  A Python \<open>str\<close> is modelled as a \<open>string\<close> whose characters stand for the code points
  U+0000 .. U+00FF; a Python \<open>bytes\<close> object is a list of 8-bit words. Every exception of
  the source is a value of \<open>error\<close> on the left of a sum.
\<close>

type_synonym byte = "8 word"
type_synonym bytes = "byte list"

datatype error =
    DecodeError   \<comment> \<open>the \<open>ValueError\<close> raised by \<open>bytes.fromhex\<close>\<close>
  | ParseError    \<comment> \<open>the \<open>ValueError\<close> raised by \<open>int(text, 16)\<close>\<close>
  | RangeError    \<comment> \<open>the error raised by the constructor of a numeric wrapper type\<close>

subsection \<open>The Python built-ins the module calls\<close>

definition code_point :: "char \<Rightarrow> nat" where
  "code_point c = of_char c"

text \<open>\<open>str.startswith\<close>, and \<open>str.rjust(width, fillchar)\<close>, which returns the string itself
  when it is already \<open>width\<close> characters or longer.\<close>

definition startswith :: "string \<Rightarrow> string \<Rightarrow> bool" where
  "startswith s p = (take (length p) s = p)"

definition rjust :: "string \<Rightarrow> nat \<Rightarrow> char \<Rightarrow> string" where
  "rjust s width fillchar = replicate (width - length s) fillchar @ s"

text \<open>CPython's digit table \<open>_PyLong_DigitValue\<close>: \<open>0-9\<close> give 0..9, letters of either case
  give 10..35, every other character gives 37.\<close>

definition PyLong_DigitValue :: "char \<Rightarrow> nat" where
  "PyLong_DigitValue c =
     (let n = code_point c in
      if 48 \<le> n \<and> n \<le> 57 then n - 48
      else if 97 \<le> n \<and> n \<le> 122 then n - 87
      else if 65 \<le> n \<and> n \<le> 90 then n - 55
      else 37)"

text \<open>CPython's \<open>Py_ISSPACE\<close>: tab, line feed, vertical tab, form feed, carriage return
  and space.\<close>

definition Py_ISSPACE :: "char \<Rightarrow> bool" where
  "Py_ISSPACE c = (let n = code_point c in (9 \<le> n \<and> n \<le> 13) \<or> n = 32)"

text \<open>
  \<open>bytes.fromhex\<close>: at the head of each round ASCII whitespace is skipped; then two
  hexadecimal digits are read and give one byte \<open>(top << 4) + bot\<close>. A character that is
  not a digit where a digit is expected, also the end of the text after a first digit,
  raises \<open>ValueError\<close>.
\<close>

fun bytes_fromhex :: "string \<Rightarrow> error + bytes" where
  "bytes_fromhex [] = Inr []"
| "bytes_fromhex [c] = (if Py_ISSPACE c then Inr [] else Inl DecodeError)"
| "bytes_fromhex (c # d # cs) =
     (if Py_ISSPACE c then bytes_fromhex (d # cs)
      else if 16 \<le> PyLong_DigitValue c then Inl DecodeError
      else if 16 \<le> PyLong_DigitValue d then Inl DecodeError
      else (case bytes_fromhex cs of
              Inl e \<Rightarrow> Inl e
            | Inr bs \<Rightarrow> Inr (word_of_nat (16 * PyLong_DigitValue c + PyLong_DigitValue d) # bs)))"

text \<open>
  \<open>int(text, 16)\<close>. A text with a character beyond ASCII is first rewritten
  (\<open>_PyUnicode_TransformDecimalAndSpaceToASCII\<close>): characters below 127 stay, Unicode
  whitespace (U+0085 and U+00A0 in the range modelled) becomes a space, and since no
  character of the range from 127 on is a decimal digit, any other one becomes \<open>?\<close> and
  ends the text.
\<close>

definition Py_UNICODE_ISSPACE :: "char \<Rightarrow> bool" where
  "Py_UNICODE_ISSPACE c =
     (let n = code_point c in
      (9 \<le> n \<and> n \<le> 13) \<or> (28 \<le> n \<and> n \<le> 32) \<or> n = 133 \<or> n = 160)"

fun transform_chars :: "string \<Rightarrow> string" where
  "transform_chars [] = []"
| "transform_chars (c # cs) =
     (if code_point c < 127 then c # transform_chars cs
      else if Py_UNICODE_ISSPACE c then CHR '' '' # transform_chars cs
      else [CHR ''?''])"

definition TransformDecimalAndSpaceToASCII :: "string \<Rightarrow> string" where
  "TransformDecimalAndSpaceToASCII s =
     (if list_all (\<lambda>c. code_point c < 128) s then s else transform_chars s)"

text \<open>
  The digit loop of \<open>long_from_binary_base\<close>: it runs over digits and underscores, refuses
  two underscores in a row and an underscore at the end of the run, and returns the value
  read with the rest of the text. \<open>prev\<close> says that the previous character was an
  underscore.
\<close>

fun scan_digits :: "bool \<Rightarrow> int \<Rightarrow> string \<Rightarrow> (int \<times> string) option" where
  "scan_digits prev acc [] = (if prev then None else Some (acc, []))"
| "scan_digits prev acc (c # cs) =
     (if c = CHR ''_'' then (if prev then None else scan_digits True acc cs)
      else if PyLong_DigitValue c < 16
        then scan_digits False (16 * acc + int (PyLong_DigitValue c)) cs
      else if prev then None else Some (acc, c # cs))"

text \<open>
  \<open>PyLong_FromString\<close> at base 16: leading whitespace, one optional sign, an optional
  \<open>0x\<close> or \<open>0X\<close> with one optional underscore after it, the digit run (which may not
  start with an underscore and may not be empty), trailing whitespace, and nothing else.
\<close>

definition skip_sign :: "string \<Rightarrow> bool \<times> string" where
  "skip_sign s =
     (case s of
        [] \<Rightarrow> (False, [])
      | c # cs \<Rightarrow>
          if c = CHR ''+'' then (False, cs)
          else if c = CHR ''-'' then (True, cs)
          else (False, s))"

definition skip_base_prefix :: "string \<Rightarrow> string" where
  "skip_base_prefix s =
     (case s of
        a # b # cs \<Rightarrow>
          if a = CHR ''0'' \<and> (b = CHR ''x'' \<or> b = CHR ''X'')
          then (case cs of
                  [] \<Rightarrow> []
                | u # cs' \<Rightarrow> if u = CHR ''_'' then cs' else cs)
          else s
      | _ \<Rightarrow> s)"

definition PyLong_FromString :: "string \<Rightarrow> int option" where
  "PyLong_FromString s =
     (let (negative, s1) = skip_sign (dropWhile Py_ISSPACE s);
          start = skip_base_prefix s1
      in case start of
           [] \<Rightarrow> None
         | c # cs \<Rightarrow>
             if c = CHR ''_'' then None
             else (case scan_digits False 0 start of
                     None \<Rightarrow> None
                   | Some (v, rest) \<Rightarrow>
                       if length rest = length start then None
                       else if dropWhile Py_ISSPACE rest \<noteq> [] then None
                       else Some (if negative then - v else v)))"

definition int_base16 :: "string \<Rightarrow> error + int" where
  "int_base16 s =
     (case PyLong_FromString (TransformDecimalAndSpaceToASCII s) of
        None \<Rightarrow> Inl ParseError
      | Some v \<Rightarrow> Inr v)"

subsection \<open>The wrapper types the module constructs\<close>

text \<open>
  Modelled from the spec: the byte-sequence types \<open>Bytes8\<close>, \<open>Bytes32\<close>, \<open>Hash32\<close>, \<open>Root\<close>,
  \<open>Bloom\<close> and \<open>Address\<close> are declared in \<open>ethereum.base_types\<close>, \<open>ethereum.crypto\<close> and
  \<open>ethereum.frontier.eth_types\<close>, which are not part of the source at hand. The spec has
  them take the decoded bytes as they are, with no length assertion.
\<close>

definition Bytes8 :: "bytes \<Rightarrow> bytes" where "Bytes8 b = b"
definition Bytes32 :: "bytes \<Rightarrow> bytes" where "Bytes32 b = b"
definition Hash32 :: "bytes \<Rightarrow> bytes" where "Hash32 b = b"
definition Root :: "bytes \<Rightarrow> bytes" where "Root b = b"
definition Bloom :: "bytes \<Rightarrow> bytes" where "Bloom b = b"
definition Address :: "bytes \<Rightarrow> bytes" where "Address b = b"

text \<open>
  Modelled from the spec: the numeric types \<open>Uint\<close> and \<open>U256\<close> of \<open>ethereum.base_types\<close>
  are not part of the source at hand either. \<open>Uint\<close> is the unbounded unsigned integer,
  \<open>U256\<close> the unsigned integer bounded to 256 bits; constructing one from a value outside
  its range is an error of the type, not of this module.
\<close>

definition Uint :: "int \<Rightarrow> error + int" where
  "Uint v = (if v < 0 then Inl RangeError else Inr v)"

definition U256 :: "int \<Rightarrow> error + int" where
  "U256 v = (if v < 0 \<or> 2 ^ 256 \<le> v then Inl RangeError else Inr v)"

subsection \<open>The functions of the module\<close>

definition has_hex_prefix :: "string \<Rightarrow> bool" where
  "has_hex_prefix hex_string = startswith hex_string ''0x''"

definition remove_hex_prefix :: "string \<Rightarrow> string" where
  "remove_hex_prefix hex_string =
     (if has_hex_prefix hex_string then drop (length ''0x'') hex_string else hex_string)"

definition hex_to_bytes :: "string \<Rightarrow> error + bytes" where
  "hex_to_bytes hex_string = bytes_fromhex (remove_hex_prefix hex_string)"

definition hex_to_bytes8 :: "string \<Rightarrow> error + bytes" where
  "hex_to_bytes8 hex_string =
     (case bytes_fromhex (rjust (remove_hex_prefix hex_string) 16 CHR ''0'') of
        Inl e \<Rightarrow> Inl e
      | Inr b \<Rightarrow> Inr (Bytes8 b))"

definition hex_to_bytes32 :: "string \<Rightarrow> error + bytes" where
  "hex_to_bytes32 hex_string =
     (case bytes_fromhex (rjust (remove_hex_prefix hex_string) 64 CHR ''0'') of
        Inl e \<Rightarrow> Inl e
      | Inr b \<Rightarrow> Inr (Bytes32 b))"

definition hex_to_hash :: "string \<Rightarrow> error + bytes" where
  "hex_to_hash hex_string =
     (case bytes_fromhex (remove_hex_prefix hex_string) of
        Inl e \<Rightarrow> Inl e
      | Inr b \<Rightarrow> Inr (Hash32 b))"

definition hex_to_root :: "string \<Rightarrow> error + bytes" where
  "hex_to_root hex_string =
     (case bytes_fromhex (remove_hex_prefix hex_string) of
        Inl e \<Rightarrow> Inl e
      | Inr b \<Rightarrow> Inr (Root b))"

definition hex_to_bloom :: "string \<Rightarrow> error + bytes" where
  "hex_to_bloom hex_string =
     (case bytes_fromhex (remove_hex_prefix hex_string) of
        Inl e \<Rightarrow> Inl e
      | Inr b \<Rightarrow> Inr (Bloom b))"

definition hex_to_address :: "string \<Rightarrow> error + bytes" where
  "hex_to_address hex_string =
     (case bytes_fromhex (rjust (remove_hex_prefix hex_string) 40 CHR ''0'') of
        Inl e \<Rightarrow> Inl e
      | Inr b \<Rightarrow> Inr (Address b))"

definition hex_to_uint :: "string \<Rightarrow> error + int" where
  "hex_to_uint hex_string =
     (case int_base16 (remove_hex_prefix hex_string) of
        Inl e \<Rightarrow> Inl e
      | Inr v \<Rightarrow> Uint v)"

definition hex_to_u256 :: "string \<Rightarrow> error + int" where
  "hex_to_u256 hex_string =
     (case int_base16 (remove_hex_prefix hex_string) of
        Inl e \<Rightarrow> Inl e
      | Inr v \<Rightarrow> U256 v)"

subsection \<open>Notions of the specification\<close>

text \<open>A hexadecimal digit is one of \<open>0-9\<close>, \<open>a-f\<close>, \<open>A-F\<close>.\<close>

definition is_hex_digit :: "char \<Rightarrow> bool" where
  "is_hex_digit c =
     (let n = code_point c in
      (48 \<le> n \<and> n \<le> 57) \<or> (97 \<le> n \<and> n \<le> 102) \<or> (65 \<le> n \<and> n \<le> 70))"

definition digit_string :: "string \<Rightarrow> bool" where
  "digit_string d = list_all is_hex_digit d"

definition digit_count :: "string \<Rightarrow> nat" where
  "digit_count s = length (filter is_hex_digit s)"

text \<open>The value of a digit string read as a base-16 numeral, most significant digit
  first.\<close>

definition base16_value :: "string \<Rightarrow> int" where
  "base16_value d = foldl (\<lambda>acc c. 16 * acc + int (PyLong_DigitValue c)) 0 d"

text \<open>A digit text completed to whole bytes: an odd number of digits gets one leading
  zero digit.\<close>

definition whole_bytes :: "string \<Rightarrow> string" where
  "whole_bytes d = (if odd (length d) then CHR ''0'' # d else d)"

text \<open>The value of a byte sequence read as a big-endian numeral.\<close>

definition be_value :: "bytes \<Rightarrow> int" where
  "be_value bs = foldl (\<lambda>acc b. 256 * acc + uint b) 0 bs"

text \<open>
  \<open>bs\<close> is the digit text \<open>d\<close> right-aligned in \<open>width\<close> bytes: it has \<open>width\<close> bytes, its
  value is the value of \<open>d\<close>, and it is the bytes of \<open>d\<close> after leading zero bytes.
\<close>

definition right_aligned :: "nat \<Rightarrow> string \<Rightarrow> bytes \<Rightarrow> bool" where
  "right_aligned width d bs =
     (length bs = width \<and> be_value bs = base16_value d \<and>
      (case bytes_fromhex (whole_bytes d) of
         Inl e \<Rightarrow> False
       | Inr ds \<Rightarrow> bs = replicate (width - length ds) 0 @ ds))"

text \<open>
  A text cut at every character that \<open>sep\<close> holds of. The pieces are the runs between
  two such characters; two of them in a row, or one at either end, give an empty piece.
\<close>

fun split_at :: "(char \<Rightarrow> bool) \<Rightarrow> string \<Rightarrow> string list" where
  "split_at sep [] = [[]]"
| "split_at sep (c # cs) =
     (if sep c then [] # split_at sep cs
      else (case split_at sep cs of
              [] \<Rightarrow> [[c]]
            | w # ws \<Rightarrow> (c # w) # ws))"

text \<open>A text of digit pairs: cut at every ASCII whitespace character, each piece is a
  digit text with an even number of digits.\<close>

definition hex_pairs_text :: "string \<Rightarrow> bool" where
  "hex_pairs_text t =
     list_all (\<lambda>w. even (length w) \<and> digit_string w) (split_at Py_ISSPACE t)"

text \<open>The bytes that the digits of a text give, two digits to a byte.\<close>

fun decode_pairs :: "string \<Rightarrow> bytes" where
  "decode_pairs (c # d # cs) =
     word_of_nat (16 * PyLong_DigitValue c + PyLong_DigitValue d) # decode_pairs cs"
| "decode_pairs _ = []"






definition digit_groups :: "string \<Rightarrow> bool" where
  "digit_groups b =
     list_all (\<lambda>g. g \<noteq> [] \<and> digit_string g) (split_at (\<lambda>c. c = CHR ''_'') b)"










section \<open>Properties of the built-ins\<close>

lemma hex_digit_iff_value: "is_hex_digit c \<longleftrightarrow> PyLong_DigitValue c < 16"
  by (auto simp: is_hex_digit_def PyLong_DigitValue_def Let_def)

lemma hex_digit_not_space: "is_hex_digit c \<Longrightarrow> \<not> Py_ISSPACE c"
  by (auto simp: is_hex_digit_def Py_ISSPACE_def Let_def)

lemma has_hex_prefix_iff: "has_hex_prefix s \<longleftrightarrow> (\<exists>t. s = CHR ''0'' # CHR ''x'' # t)"
proof (cases s)
  case Nil
  then show ?thesis by (simp add: has_hex_prefix_def startswith_def)
next
  case (Cons a s')
  then show ?thesis by (cases s') (auto simp: has_hex_prefix_def startswith_def)
qed

lemma remove_hex_prefix_cons: "remove_hex_prefix (CHR ''0'' # CHR ''x'' # t) = t"
  by (simp add: remove_hex_prefix_def has_hex_prefix_iff)

lemma remove_hex_prefix_id: "\<not> has_hex_prefix s \<Longrightarrow> remove_hex_prefix s = s"
  by (simp add: remove_hex_prefix_def)

lemma digit_string_no_prefix: "digit_string d \<Longrightarrow> \<not> has_hex_prefix d"
  by (auto simp: has_hex_prefix_iff digit_string_def is_hex_digit_def code_point_def)

lemma fromhex_error_kind: "bytes_fromhex t = Inl e \<Longrightarrow> e = DecodeError"
  by (induction t rule: bytes_fromhex.induct) (auto split: if_splits sum.splits)

lemma fromhex_digit_string:
  "digit_string d \<Longrightarrow> even (length d) \<Longrightarrow> \<exists>bs. bytes_fromhex d = Inr bs \<and> 2 * length bs = length d"
proof (induction d rule: bytes_fromhex.induct)
  case 1
  then show ?case by simp
next
  case (2 c)
  then show ?case by simp
next
  case (3 c d cs)
  from "3.prems" have c: "is_hex_digit c" and d: "is_hex_digit d" and cs: "digit_string cs" "even (length cs)"
    by (simp_all add: digit_string_def)
  from c d have v: "\<not> Py_ISSPACE c" "\<not> 16 \<le> PyLong_DigitValue c" "\<not> 16 \<le> PyLong_DigitValue d"
    by (simp_all add: hex_digit_not_space hex_digit_iff_value)
  from "3.IH"(2)[OF v cs] obtain bs where "bytes_fromhex cs = Inr bs" "2 * length bs = length cs"
    by blast
  with v show ?case by simp
qed

lemma fromhex_success:
  "bytes_fromhex t = Inr bs \<Longrightarrow>
     (\<forall>c \<in> set t. is_hex_digit c \<or> Py_ISSPACE c) \<and> 2 * length bs = digit_count t"
proof (induction t arbitrary: bs rule: bytes_fromhex.induct)
  case 1
  then show ?case by (simp add: digit_count_def)
next
  case (2 c)
  then show ?case by (auto simp: digit_count_def split: if_splits dest: hex_digit_not_space)
next
  case (3 c d cs)
  show ?case
  proof (cases "Py_ISSPACE c")
    case True
    with "3.prems" have "bytes_fromhex (d # cs) = Inr bs" by simp
    from "3.IH"(1)[OF True this] True show ?thesis
      by (auto simp: digit_count_def dest: hex_digit_not_space)
  next
    case False
    with "3.prems" have v: "\<not> 16 \<le> PyLong_DigitValue c" "\<not> 16 \<le> PyLong_DigitValue d"
      by (auto split: if_splits)
    with False "3.prems" obtain bs' where bs': "bytes_fromhex cs = Inr bs'" "length bs = Suc (length bs')"
      by (auto split: sum.splits)
    from v have hd: "is_hex_digit c" "is_hex_digit d" by (simp_all add: hex_digit_iff_value)
    from "3.IH"(2)[OF False v bs'(1)] hd bs'(2) show ?thesis
      by (auto simp: digit_count_def)
  qed
qed

lemma fromhex_zero_pair:
  "bytes_fromhex (CHR ''0'' # CHR ''0'' # t) =
     (case bytes_fromhex t of Inl e \<Rightarrow> Inl e | Inr bs \<Rightarrow> Inr (0 # bs))"
  by (simp add: Py_ISSPACE_def PyLong_DigitValue_def code_point_def split: sum.splits)

lemma fromhex_zero_pairs:
  "bytes_fromhex (replicate (2 * k) CHR ''0'' @ t) =
     (case bytes_fromhex t of Inl e \<Rightarrow> Inl e | Inr bs \<Rightarrow> Inr (replicate k 0 @ bs))"
  by (induction k) (simp_all add: fromhex_zero_pair del: bytes_fromhex.simps split: sum.splits)

section \<open>The prefix\<close>

text \<open>
  Claim C8. \<open>has_hex_prefix s\<close> holds exactly when \<open>s\<close> begins with the two characters
  \<open>0x\<close> (lowercase). When it holds, \<open>remove_hex_prefix s\<close> is \<open>s\<close> without its first two
  characters; when it does not, \<open>remove_hex_prefix s\<close> is \<open>s\<close> itself.
\<close>

theorem prefix_predicate_and_removal:
  "(has_hex_prefix s \<longleftrightarrow> (\<exists>t. s = ''0x'' @ t)) \<and>
   (has_hex_prefix s \<longrightarrow>
      remove_hex_prefix s = drop 2 s \<and> s = ''0x'' @ remove_hex_prefix s) \<and>
   (\<not> has_hex_prefix s \<longrightarrow> remove_hex_prefix s = s)"
  by (auto simp: has_hex_prefix_iff remove_hex_prefix_cons remove_hex_prefix_id)

theorem prefix_predicate_and_removal_witness:
  "has_hex_prefix ''0xab'' \<and> remove_hex_prefix ''0xab'' = ''ab'' \<and>
   \<not> has_hex_prefix ''0Xab'' \<and> remove_hex_prefix ''0Xab'' = ''0Xab''"
  using prefix_predicate_and_removal [of "''0xab''"] prefix_predicate_and_removal [of "''0Xab''"]
  by simp

text \<open>
  Claim C7 says that removing the prefix twice is the same as removing it once, for every
  input. It is not so for a text that begins with two prefixes: each call removes one.
\<close>

theorem remove_hex_prefix_twice_counterexample:
  "remove_hex_prefix (remove_hex_prefix ''0x0xab'') \<noteq> remove_hex_prefix ''0x0xab''"
  by (simp add: remove_hex_prefix_def has_hex_prefix_def startswith_def)

text \<open>
  Claim C7, amended. Removing the prefix a second time changes nothing exactly when the
  text left by the first removal does not begin with \<open>0x\<close> again; this is so for every
  text with no prefix. When the text left still begins with \<open>0x\<close>, the second removal
  takes two more characters away.
\<close>

theorem remove_hex_prefix_twice:
  "(remove_hex_prefix (remove_hex_prefix s) = remove_hex_prefix s
      \<longleftrightarrow> \<not> has_hex_prefix (remove_hex_prefix s)) \<and>
   (\<not> has_hex_prefix s \<longrightarrow> remove_hex_prefix (remove_hex_prefix s) = remove_hex_prefix s) \<and>
   (has_hex_prefix (remove_hex_prefix s) \<longrightarrow>
      remove_hex_prefix (remove_hex_prefix s) = drop 2 (remove_hex_prefix s))"
proof -
  have "remove_hex_prefix t = t \<longleftrightarrow> \<not> has_hex_prefix t" for t
    by (auto simp: has_hex_prefix_iff remove_hex_prefix_cons remove_hex_prefix_id)
  moreover have "has_hex_prefix t \<Longrightarrow> remove_hex_prefix t = drop 2 t" for t
    by (auto simp: has_hex_prefix_iff remove_hex_prefix_cons)
  ultimately show ?thesis by (simp add: remove_hex_prefix_id)
qed

theorem remove_hex_prefix_twice_witness:
  "\<not> has_hex_prefix ''ab'' \<and> \<not> has_hex_prefix (remove_hex_prefix ''0xab'') \<and>
   remove_hex_prefix (remove_hex_prefix ''ab'') = remove_hex_prefix ''ab'' \<and>
   remove_hex_prefix (remove_hex_prefix ''0xab'') = remove_hex_prefix ''0xab'' \<and>
   has_hex_prefix (remove_hex_prefix ''0x0xab'') \<and>
   remove_hex_prefix (remove_hex_prefix ''0x0xab'') = ''ab''"
  using remove_hex_prefix_twice [of "''ab''"] remove_hex_prefix_twice [of "''0xab''"]
    remove_hex_prefix_twice [of "''0x0xab''"]
  by (simp add: remove_hex_prefix_def has_hex_prefix_def startswith_def)

text \<open>
  Claim C10. \<open>hex_to_bytes\<close> accepts the empty text and the bare prefix \<open>0x\<close> and returns
  the empty byte sequence for both, while the conversions to integers reject both.
\<close>

theorem empty_text_decodes_but_does_not_parse:
  "hex_to_bytes '''' = Inr [] \<and> hex_to_bytes ''0x'' = Inr [] \<and>
   hex_to_uint '''' = Inl ParseError \<and> hex_to_uint ''0x'' = Inl ParseError \<and>
   hex_to_u256 '''' = Inl ParseError \<and> hex_to_u256 ''0x'' = Inl ParseError"
  by (simp add: hex_to_bytes_def hex_to_uint_def hex_to_u256_def remove_hex_prefix_def
      has_hex_prefix_def startswith_def int_base16_def PyLong_FromString_def
      TransformDecimalAndSpaceToASCII_def skip_sign_def skip_base_prefix_def)

text \<open>
  Claim C6. For every even-length text \<open>s\<close> of hexadecimal digits, \<open>hex_to_bytes\<close> gives
  the same result on \<open>0x\<close> followed by \<open>s\<close> as on \<open>s\<close>, and that result is a byte
  sequence, not an error.
\<close>

theorem hex_to_bytes_prefix_irrelevant:
  assumes "digit_string s" and "even (length s)"
  shows "hex_to_bytes (''0x'' @ s) = hex_to_bytes s \<and>
         (\<exists>bs. hex_to_bytes s = Inr bs \<and> 2 * length bs = length s)"
proof -
  from assms(1) have "remove_hex_prefix s = s"
    by (simp add: digit_string_no_prefix remove_hex_prefix_id)
  moreover have "remove_hex_prefix (''0x'' @ s) = s"
    by (simp add: remove_hex_prefix_cons)
  ultimately show ?thesis
    using fromhex_digit_string [OF assms] by (simp add: hex_to_bytes_def)
qed

theorem hex_to_bytes_prefix_irrelevant_witness:
  "digit_string ''12aB'' \<and> even (length ''12aB'') \<and>
   hex_to_bytes ''0x12aB'' = hex_to_bytes ''12aB'' \<and> hex_to_bytes ''12aB'' = Inr [0x12, 0xAB]"
proof -
  have h: "digit_string ''12aB''" "even (length ''12aB'')"
    by (simp_all add: digit_string_def is_hex_digit_def code_point_def)
  have "hex_to_bytes ''12aB'' = Inr [0x12, 0xAB]"
    by (simp add: hex_to_bytes_def remove_hex_prefix_def has_hex_prefix_def startswith_def
        Py_ISSPACE_def PyLong_DigitValue_def code_point_def)
  with h hex_to_bytes_prefix_irrelevant [OF h] show ?thesis by simp
qed

section \<open>Failure of the decoding\<close>

lemma fromhex_failure:
  assumes "bytes_fromhex t = Inl e"
  shows "odd (digit_count t) \<or> (\<exists>c \<in> set t. \<not> is_hex_digit c)"
proof (rule ccontr)
  assume "\<not> ?thesis"
  then have ds: "digit_string t" and ev: "even (digit_count t)"
    by (auto simp: digit_string_def list_all_iff)
  from ds have "digit_count t = length t"
    by (simp add: digit_count_def digit_string_def list_all_iff)
  with ev fromhex_digit_string [OF ds] assms show False by auto
qed

text \<open>
  Claim C2 says that \<open>hex_to_bytes\<close> fails whenever the text left after the prefix holds a
  character that is not a hexadecimal digit. A space between two digit pairs is such a
  character, and the conversion succeeds: \<open>bytes.fromhex\<close> skips ASCII whitespace.
\<close>

theorem hex_to_bytes_failure_counterexample:
  "hex_to_bytes ''0x12 34'' = Inr [0x12, 0x34] \<and>
   \<not> is_hex_digit CHR '' '' \<and> CHR '' '' \<in> set (remove_hex_prefix ''0x12 34'')"
  by (simp add: hex_to_bytes_def remove_hex_prefix_def has_hex_prefix_def startswith_def
      Py_ISSPACE_def PyLong_DigitValue_def is_hex_digit_def code_point_def)

lemma split_at_nonempty: "split_at sep t \<noteq> []"
  by (induction t) (auto split: list.splits)

lemma split_at_no_sep:
  "\<not> (\<exists>c \<in> set t. sep c) \<Longrightarrow> split_at sep t = [t]"
  by (induction t) auto

lemma fromhex_pairs_text:
  "(\<exists>bs. bytes_fromhex t = Inr bs) \<longleftrightarrow> hex_pairs_text t"
proof (induction t rule: bytes_fromhex.induct)
  case 1
  show ?case by (simp add: hex_pairs_text_def digit_string_def)
next
  case (2 c)
  show ?case by (simp add: hex_pairs_text_def digit_string_def)
next
  case (3 c d cs)
  show ?case
  proof (cases "Py_ISSPACE c")
    case True
    with "3.IH"(1) show ?thesis
      by (simp add: hex_pairs_text_def digit_string_def)
  next
    case c: False
    obtain w ws where dcs: "split_at Py_ISSPACE (d # cs) = w # ws"
      using split_at_nonempty [of Py_ISSPACE "d # cs"] by (cases "split_at Py_ISSPACE (d # cs)") auto
    obtain w' ws' where cs: "split_at Py_ISSPACE cs = w' # ws'"
      using split_at_nonempty [of Py_ISSPACE cs] by (cases "split_at Py_ISSPACE cs") auto
    show ?thesis
    proof (cases "is_hex_digit c \<and> is_hex_digit d")
      case True
      then have v: "\<not> 16 \<le> PyLong_DigitValue c" "\<not> 16 \<le> PyLong_DigitValue d"
        "\<not> Py_ISSPACE d"
        by (simp_all add: hex_digit_iff_value hex_digit_not_space)
      from "3.IH"(2) [OF c v(1,2)] c v True cs show ?thesis
        by (auto simp: hex_pairs_text_def digit_string_def split: sum.splits)
    next
      case False
      then have fails: "bytes_fromhex (c # d # cs) = Inl DecodeError"
        using c by (auto simp: hex_digit_iff_value)
      have "\<not> hex_pairs_text (c # d # cs)"
      proof (cases "is_hex_digit c")
        case False
        with c dcs show ?thesis by (simp add: hex_pairs_text_def digit_string_def)
      next
        case True
        with False have d: "\<not> is_hex_digit d" by simp
        with c cs show ?thesis
          by (auto simp: hex_pairs_text_def digit_string_def)
      qed
      with fails show ?thesis by simp
    qed
  qed
qed

lemma fromhex_skips_space:
  "bytes_fromhex t = Inr bs \<Longrightarrow> bs = decode_pairs (filter (\<lambda>c. \<not> Py_ISSPACE c) t)"
proof (induction t arbitrary: bs rule: bytes_fromhex.induct)
  case 1
  then show ?case by simp
next
  case (2 c)
  then show ?case by (simp split: if_splits)
next
  case (3 c d cs)
  show ?case
  proof (cases "Py_ISSPACE c")
    case True
    with "3.prems" "3.IH"(1) show ?thesis by simp
  next
    case False
    with "3.prems" have v: "\<not> 16 \<le> PyLong_DigitValue c" "\<not> 16 \<le> PyLong_DigitValue d"
      by (auto split: if_splits)
    then have "is_hex_digit d" by (simp add: hex_digit_iff_value)
    then have nd: "\<not> Py_ISSPACE d" by (rule hex_digit_not_space)
    from False v "3.prems" obtain bs' where bs': "bytes_fromhex cs = Inr bs'"
      "bs = word_of_nat (16 * PyLong_DigitValue c + PyLong_DigitValue d) # bs'"
      by (auto split: sum.splits)
    from "3.IH"(2) [OF False v bs'(1)] bs'(2) False nd show ?thesis by simp
  qed
qed

text \<open>
  Claim C2, amended. Let \<open>t\<close> be the text left after the prefix. \<open>hex_to_bytes\<close> fails with
  a \<open>DecodeError\<close> exactly when, \<open>t\<close> being cut at every ASCII whitespace character, some
  piece has an odd number of characters or holds a character that is not a hexadecimal
  digit; it never fails with another error. On every other input it succeeds and returns
  the bytes of the digit pairs of \<open>t\<close>, the whitespace left out. So it fails whenever \<open>t\<close>
  has an odd number of hexadecimal digits or holds a character that is neither a
  hexadecimal digit nor ASCII whitespace, and for a text \<open>t\<close> with no ASCII whitespace it
  fails exactly when the digit count is odd or some character is not a hexadecimal digit.
  \<open>0xg1\<close>, \<open>0xabc\<close> and \<open>0x1 2\<close> fail; \<open>0x12 34\<close> gives the bytes 0x12 0x34.
\<close>

theorem hex_to_bytes_failure:
  "(hex_to_bytes s = Inl DecodeError \<longleftrightarrow> \<not> hex_pairs_text (remove_hex_prefix s)) \<and>
   (\<forall>e. hex_to_bytes s = Inl e \<longrightarrow> e = DecodeError) \<and>
   (\<forall>bs. hex_to_bytes s = Inr bs \<longrightarrow>
      bs = decode_pairs (filter (\<lambda>c. \<not> Py_ISSPACE c) (remove_hex_prefix s))) \<and>
   (odd (digit_count (remove_hex_prefix s)) \<or>
      (\<exists>c \<in> set (remove_hex_prefix s). \<not> is_hex_digit c \<and> \<not> Py_ISSPACE c)
    \<longrightarrow> hex_to_bytes s = Inl DecodeError) \<and>
   (\<forall>e. hex_to_bytes s = Inl e \<longrightarrow>
      odd (digit_count (remove_hex_prefix s)) \<or>
      (\<exists>c \<in> set (remove_hex_prefix s). \<not> is_hex_digit c)) \<and>
   ((\<forall>c \<in> set (remove_hex_prefix s). \<not> Py_ISSPACE c) \<longrightarrow>
      (hex_to_bytes s = Inl DecodeError \<longleftrightarrow>
         odd (digit_count (remove_hex_prefix s)) \<or>
         (\<exists>c \<in> set (remove_hex_prefix s). \<not> is_hex_digit c))) \<and>
   hex_to_bytes ''0xg1'' = Inl DecodeError \<and> hex_to_bytes ''0xabc'' = Inl DecodeError \<and>
   hex_to_bytes ''0x1 2'' = Inl DecodeError \<and> hex_to_bytes ''0x12 34'' = Inr [0x12, 0x34]"
proof -
  let ?t = "remove_hex_prefix s"
  have k: "e = DecodeError" if "hex_to_bytes s = Inl e" for e
    using that fromhex_error_kind [of ?t e] by (simp add: hex_to_bytes_def)
  have x: "hex_to_bytes s = Inl DecodeError \<longleftrightarrow> \<not> hex_pairs_text ?t"
  proof (cases "bytes_fromhex ?t")
    case (Inl e)
    with fromhex_pairs_text [of ?t] fromhex_error_kind [OF Inl] show ?thesis
      by (simp add: hex_to_bytes_def)
  next
    case (Inr bs)
    with fromhex_pairs_text [of ?t] show ?thesis
      by (simp add: hex_to_bytes_def)
  qed
  have v: "bs = decode_pairs (filter (\<lambda>c. \<not> Py_ISSPACE c) ?t)"
    if "hex_to_bytes s = Inr bs" for bs
    using that fromhex_skips_space [of ?t bs] by (simp add: hex_to_bytes_def)
  have a: "hex_to_bytes s = Inl DecodeError"
    if "odd (digit_count ?t) \<or> (\<exists>c \<in> set ?t. \<not> is_hex_digit c \<and> \<not> Py_ISSPACE c)"
  proof (cases "bytes_fromhex ?t")
    case (Inl e)
    then show ?thesis by (simp add: hex_to_bytes_def fromhex_error_kind)
  next
    case (Inr bs)
    from fromhex_success [OF Inr] that show ?thesis
      by (metis even_mult_iff even_numeral)
  qed
  have b: "odd (digit_count ?t) \<or> (\<exists>c \<in> set ?t. \<not> is_hex_digit c)"
    if "hex_to_bytes s = Inl e" for e
    using that fromhex_failure [of ?t e] by (simp add: hex_to_bytes_def)
  have c: "hex_to_bytes s = Inl DecodeError \<longleftrightarrow>
             odd (digit_count ?t) \<or> (\<exists>c \<in> set ?t. \<not> is_hex_digit c)"
    if "\<forall>c \<in> set ?t. \<not> Py_ISSPACE c"
    using a b that by blast
  have d: "hex_to_bytes ''0xg1'' = Inl DecodeError" "hex_to_bytes ''0xabc'' = Inl DecodeError"
    "hex_to_bytes ''0x1 2'' = Inl DecodeError" "hex_to_bytes ''0x12 34'' = Inr [0x12, 0x34]"
    by (simp_all add: hex_to_bytes_def remove_hex_prefix_def has_hex_prefix_def startswith_def
        Py_ISSPACE_def PyLong_DigitValue_def code_point_def)
  from x k v a b c d show ?thesis by blast
qed

theorem hex_to_bytes_failure_witness:
  "odd (digit_count (remove_hex_prefix ''0x123'')) \<and>
   \<not> (\<exists>c \<in> set (remove_hex_prefix ''0x123''). Py_ISSPACE c) \<and>
   hex_to_bytes ''0x123'' = Inl DecodeError \<and>
   (\<exists>c \<in> set (remove_hex_prefix ''0x1z''). \<not> is_hex_digit c \<and> \<not> Py_ISSPACE c) \<and>
   hex_to_bytes ''0x1z'' = Inl DecodeError \<and>
   \<not> hex_pairs_text (remove_hex_prefix ''0x12 3 4'') \<and>
   hex_to_bytes ''0x12 3 4'' = Inl DecodeError \<and>
   hex_pairs_text (remove_hex_prefix ''0xab  cdef '') \<and>
   hex_to_bytes ''0xab  cdef '' = Inr [0xAB, 0xCD, 0xEF]"
proof -
  note r = remove_hex_prefix_def has_hex_prefix_def startswith_def
  have h1: "odd (digit_count (remove_hex_prefix ''0x123''))"
    by (simp add: digit_count_def r is_hex_digit_def code_point_def)
  have h2: "\<not> (\<exists>c \<in> set (remove_hex_prefix ''0x123''). Py_ISSPACE c)"
    by (simp add: r Py_ISSPACE_def code_point_def)
  have h3: "\<exists>c \<in> set (remove_hex_prefix ''0x1z''). \<not> is_hex_digit c \<and> \<not> Py_ISSPACE c"
    by (simp add: r Py_ISSPACE_def is_hex_digit_def code_point_def)
  have h4: "\<not> hex_pairs_text (remove_hex_prefix ''0x12 3 4'')"
    by (simp add: r hex_pairs_text_def digit_string_def Py_ISSPACE_def is_hex_digit_def
        code_point_def)
  have h5: "hex_pairs_text (remove_hex_prefix ''0xab  cdef '')"
    by (simp add: r hex_pairs_text_def digit_string_def Py_ISSPACE_def is_hex_digit_def
        code_point_def)
  have h6: "decode_pairs (filter (\<lambda>c. \<not> Py_ISSPACE c) (remove_hex_prefix ''0xab  cdef ''))
              = [0xAB, 0xCD, 0xEF]"
    by (simp add: r Py_ISSPACE_def PyLong_DigitValue_def code_point_def)
  note t1 = hex_to_bytes_failure [of "''0x123''"]
  note t2 = hex_to_bytes_failure [of "''0x1z''"]
  note t3 = hex_to_bytes_failure [of "''0x12 3 4''"]
  note t4 = hex_to_bytes_failure [of "''0xab  cdef ''"]
  from t1 h1 have 1: "hex_to_bytes ''0x123'' = Inl DecodeError" by blast
  from t2 h3 have 2: "hex_to_bytes ''0x1z'' = Inl DecodeError" by blast
  from t3 h4 have 3: "hex_to_bytes ''0x12 3 4'' = Inl DecodeError" by blast
  from t4 h5 have "hex_to_bytes ''0xab  cdef '' \<noteq> Inl DecodeError" by blast
  with t4 obtain bs where bs: "hex_to_bytes ''0xab  cdef '' = Inr bs"
    by (cases "hex_to_bytes ''0xab  cdef ''") auto
  with t4 have "bs = decode_pairs (filter (\<lambda>c. \<not> Py_ISSPACE c) (remove_hex_prefix ''0xab  cdef ''))"
    by blast
  with bs h6 have 4: "hex_to_bytes ''0xab  cdef '' = Inr [0xAB, 0xCD, 0xEF]" by simp
  from h1 h2 h3 h4 h5 1 2 3 4 show ?thesis by blast
qed

section \<open>Conversions to byte sequences\<close>

text \<open>
  Claim C4. \<open>hex_to_hash\<close>, \<open>hex_to_root\<close> and \<open>hex_to_bloom\<close> remove the prefix and decode,
  with no padding and no check of the length: each gives what \<open>hex_to_bytes\<close> gives. A
  byte sequence that comes out has half as many bytes as the text left after the prefix
  has hexadecimal digits, and every even-length digit text is decoded, whatever its
  length. \<open>hex_to_hash\<close> of \<open>0x1234\<close> is the two bytes 0x12 0x34.
\<close>

theorem unpadded_conversions_decode_as_is:
  "hex_to_hash s = hex_to_bytes s \<and> hex_to_root s = hex_to_bytes s \<and>
   hex_to_bloom s = hex_to_bytes s \<and>
   (\<forall>bs. hex_to_bytes s = Inr bs \<longrightarrow> length bs = digit_count (remove_hex_prefix s) div 2) \<and>
   (digit_string (remove_hex_prefix s) \<and> even (length (remove_hex_prefix s)) \<longrightarrow>
      (\<exists>bs. hex_to_bytes s = Inr bs \<and> length bs = length (remove_hex_prefix s) div 2)) \<and>
   hex_to_hash ''0x1234'' = Inr [0x12, 0x34]"
proof -
  have same: "hex_to_hash s = hex_to_bytes s" "hex_to_root s = hex_to_bytes s"
    "hex_to_bloom s = hex_to_bytes s" 
    by (simp_all add: hex_to_hash_def hex_to_root_def hex_to_bloom_def hex_to_bytes_def
        Hash32_def Root_def Bloom_def split: sum.splits)
  have len: "length bs = digit_count (remove_hex_prefix s) div 2" if "hex_to_bytes s = Inr bs" for bs
  proof -
    from that have "bytes_fromhex (remove_hex_prefix s) = Inr bs" by (simp add: hex_to_bytes_def)
    from fromhex_success [OF this] have "2 * length bs = digit_count (remove_hex_prefix s)"
      by blast
    then show ?thesis by arith
  qed
  have ok: "\<exists>bs. hex_to_bytes s = Inr bs \<and> length bs = length (remove_hex_prefix s) div 2"
    if "digit_string (remove_hex_prefix s)" "even (length (remove_hex_prefix s))"
    using fromhex_digit_string [OF that] by (auto simp: hex_to_bytes_def)
  have ex: "hex_to_hash ''0x1234'' = Inr [0x12, 0x34]"
    by (simp add: hex_to_hash_def Hash32_def remove_hex_prefix_def has_hex_prefix_def
        startswith_def Py_ISSPACE_def PyLong_DigitValue_def code_point_def)
  from same len ok ex show ?thesis by blast
qed

theorem unpadded_conversions_decode_as_is_witness:
  "hex_to_hash ''0x12 ab'' = Inr [0x12, 0xAB] \<and>
   hex_to_root ''0x12 ab'' = Inr [0x12, 0xAB] \<and>
   hex_to_bloom ''0x12 ab'' = Inr [0x12, 0xAB] \<and>
   digit_count (remove_hex_prefix ''0x12 ab'') div 2 = 2 \<and>
   digit_string (remove_hex_prefix ''0xabcdef'') \<and>
   even (length (remove_hex_prefix ''0xabcdef'')) \<and>
   (\<exists>bs. hex_to_root ''0xabcdef'' = Inr bs \<and> length bs = 3)"
proof -
  have h: "hex_to_bytes ''0x12 ab'' = Inr [0x12, 0xAB]"
    by (simp add: hex_to_bytes_def remove_hex_prefix_def has_hex_prefix_def
        startswith_def Py_ISSPACE_def PyLong_DigitValue_def code_point_def)
  have r: "remove_hex_prefix ''0xabcdef'' = ''abcdef''"
    by (simp add: remove_hex_prefix_def has_hex_prefix_def startswith_def)
  have d: "digit_string (remove_hex_prefix ''0xabcdef'')"
    "even (length (remove_hex_prefix ''0xabcdef''))"
    by (simp_all add: r digit_string_def is_hex_digit_def code_point_def)
  note a = unpadded_conversions_decode_as_is [of "''0x12 ab''"]
  note b = unpadded_conversions_decode_as_is [of "''0xabcdef''"]
  from a h have 1: "hex_to_hash ''0x12 ab'' = Inr [0x12, 0xAB]"
    "hex_to_root ''0x12 ab'' = Inr [0x12, 0xAB]" "hex_to_bloom ''0x12 ab'' = Inr [0x12, 0xAB]"
    by simp_all
  from a h have "length [0x12, 0xAB :: byte] = digit_count (remove_hex_prefix ''0x12 ab'') div 2"
    by blast
  then have 2: "digit_count (remove_hex_prefix ''0x12 ab'') div 2 = 2" by simp
  from b d obtain bs where bs: "hex_to_bytes ''0xabcdef'' = Inr bs"
    and "length bs = length (remove_hex_prefix ''0xabcdef'') div 2"
    by blast
  then have "length bs = 3" by (simp add: r)
  moreover from b bs have "hex_to_root ''0xabcdef'' = Inr bs" by simp
  ultimately have 3: "\<exists>bs. hex_to_root ''0xabcdef'' = Inr bs \<and> length bs = 3"
    by blast
  from 1 2 d 3 show ?thesis by blast
qed

lemma rjust_long: "width \<le> length s \<Longrightarrow> rjust s width c = s"
  by (simp add: rjust_def)

text \<open>
  Claim C5. When the text left after the prefix is an even-length digit text with more
  than twice the width in digits, \<open>hex_to_bytes8\<close> (more than 16), \<open>hex_to_bytes32\<close> (more
  than 64) and \<open>hex_to_address\<close> (more than 40) add no padding: they decode the text as
  \<open>hex_to_bytes\<close> does, and return a byte sequence longer than the width.
\<close>

theorem oversize_input_not_padded:
  assumes "digit_string (remove_hex_prefix s)" and "even (length (remove_hex_prefix s))"
  shows "(16 < length (remove_hex_prefix s) \<longrightarrow>
            hex_to_bytes8 s = hex_to_bytes s \<and>
            (\<exists>bs. hex_to_bytes8 s = Inr bs \<and> 8 < length bs \<and>
                  2 * length bs = length (remove_hex_prefix s))) \<and>
         (64 < length (remove_hex_prefix s) \<longrightarrow>
            hex_to_bytes32 s = hex_to_bytes s \<and>
            (\<exists>bs. hex_to_bytes32 s = Inr bs \<and> 32 < length bs \<and>
                  2 * length bs = length (remove_hex_prefix s))) \<and>
         (40 < length (remove_hex_prefix s) \<longrightarrow>
            hex_to_address s = hex_to_bytes s \<and>
            (\<exists>bs. hex_to_address s = Inr bs \<and> 20 < length bs \<and>
                  2 * length bs = length (remove_hex_prefix s)))"
proof -
  from fromhex_digit_string [OF assms] obtain bs
    where bs: "bytes_fromhex (remove_hex_prefix s) = Inr bs"
      "2 * length bs = length (remove_hex_prefix s)"
    by blast
  then show ?thesis
    by (auto simp: hex_to_bytes8_def hex_to_bytes32_def hex_to_address_def hex_to_bytes_def
        rjust_long Bytes8_def Bytes32_def Address_def)
qed

theorem oversize_input_not_padded_witness:
  "digit_string (remove_hex_prefix ''0x010101010101010101010101010101010101010101010101010101010101010101'') \<and>
   even (length (remove_hex_prefix ''0x010101010101010101010101010101010101010101010101010101010101010101'')) \<and>
   length (remove_hex_prefix ''0x010101010101010101010101010101010101010101010101010101010101010101'') = 66 \<and>
   hex_to_bytes8 ''0x010101010101010101010101010101010101010101010101010101010101010101'' = hex_to_bytes ''0x010101010101010101010101010101010101010101010101010101010101010101'' \<and>
   hex_to_bytes32 ''0x010101010101010101010101010101010101010101010101010101010101010101'' = hex_to_bytes ''0x010101010101010101010101010101010101010101010101010101010101010101'' \<and>
   hex_to_address ''0x010101010101010101010101010101010101010101010101010101010101010101'' = hex_to_bytes ''0x010101010101010101010101010101010101010101010101010101010101010101'' \<and>
   (\<exists>bs. hex_to_bytes32 ''0x010101010101010101010101010101010101010101010101010101010101010101'' = Inr bs \<and> length bs = 33)"
proof -
  have r: "remove_hex_prefix ''0x010101010101010101010101010101010101010101010101010101010101010101'' = ''010101010101010101010101010101010101010101010101010101010101010101''"
    by (simp add: remove_hex_prefix_def has_hex_prefix_def startswith_def)
  have d: "digit_string (remove_hex_prefix ''0x010101010101010101010101010101010101010101010101010101010101010101'')"
    "even (length (remove_hex_prefix ''0x010101010101010101010101010101010101010101010101010101010101010101''))"
    by (simp_all add: r digit_string_def is_hex_digit_def code_point_def)
  have l: "length (remove_hex_prefix ''0x010101010101010101010101010101010101010101010101010101010101010101'') = 66"
    by (simp add: r)
  note t = oversize_input_not_padded [OF d]
  from t l have e: "hex_to_bytes8 ''0x010101010101010101010101010101010101010101010101010101010101010101'' = hex_to_bytes ''0x010101010101010101010101010101010101010101010101010101010101010101''"
    "hex_to_bytes32 ''0x010101010101010101010101010101010101010101010101010101010101010101'' = hex_to_bytes ''0x010101010101010101010101010101010101010101010101010101010101010101''"
    "hex_to_address ''0x010101010101010101010101010101010101010101010101010101010101010101'' = hex_to_bytes ''0x010101010101010101010101010101010101010101010101010101010101010101''"
    by simp_all
  from l have "64 < length (remove_hex_prefix ''0x010101010101010101010101010101010101010101010101010101010101010101'')" by simp
  with t obtain bs where "hex_to_bytes32 ''0x010101010101010101010101010101010101010101010101010101010101010101'' = Inr bs"
    "2 * length bs = length (remove_hex_prefix ''0x010101010101010101010101010101010101010101010101010101010101010101'')"
    by blast
  with l have "\<exists>bs. hex_to_bytes32 ''0x010101010101010101010101010101010101010101010101010101010101010101'' = Inr bs \<and> length bs = 33"
    by auto
  with d l e show ?thesis by blast
qed

section \<open>Padding to a fixed width\<close>

lemma byte_of_digits:
  assumes "x < 16" and "y < 16"
  shows "uint (word_of_nat (16 * x + y) :: byte) = 16 * int x + int y"
proof -
  from assms have "16 * x + y < 256" by simp
  then have "unat (word_of_nat (16 * x + y) :: byte) = 16 * x + y"
    by (subst unat_of_nat) simp
  then show ?thesis by (simp only: uint_nat)
qed

lemma fromhex_value:
  "bytes_fromhex d = Inr bs \<Longrightarrow> digit_string d \<Longrightarrow>
     foldl (\<lambda>acc b. 256 * acc + uint b) a bs =
     foldl (\<lambda>acc c. 16 * acc + int (PyLong_DigitValue c)) a d"
proof (induction d arbitrary: a bs rule: bytes_fromhex.induct)
  case 1
  then show ?case by simp
next
  case (2 c)
  then show ?case by (auto simp: digit_string_def split: if_splits dest: hex_digit_not_space)
next
  case (3 c d cs)
  from "3.prems"(2) have c: "is_hex_digit c" and d: "is_hex_digit d" and cs: "digit_string cs"
    by (simp_all add: digit_string_def)
  from c d have v: "\<not> Py_ISSPACE c" "\<not> 16 \<le> PyLong_DigitValue c" "\<not> 16 \<le> PyLong_DigitValue d"
    by (simp_all add: hex_digit_not_space hex_digit_iff_value)
  with "3.prems"(1) obtain bs' where bs': "bytes_fromhex cs = Inr bs'"
    "bs = word_of_nat (16 * PyLong_DigitValue c + PyLong_DigitValue d) # bs'"
    by (auto split: sum.splits)
  from v have "uint (word_of_nat (16 * PyLong_DigitValue c + PyLong_DigitValue d) :: byte)
      = 16 * int (PyLong_DigitValue c) + int (PyLong_DigitValue d)"
    by (intro byte_of_digits) simp_all
  with "3.IH"(2)[OF v bs'(1) cs] bs'(2) show ?case
    by (simp add: algebra_simps)
qed

lemma be_value_zeros: "be_value (replicate k 0 @ bs) = be_value bs"
proof -
  have "foldl (\<lambda>acc b. 256 * acc + uint b) 0 (replicate k (0 :: byte)) = 0"
    by (induction k) simp_all
  then show ?thesis by (simp add: be_value_def)
qed

lemma base16_value_whole_bytes: "base16_value (whole_bytes d) = base16_value d"
  by (simp add: base16_value_def whole_bytes_def PyLong_DigitValue_def code_point_def)

lemma digit_string_whole_bytes: "digit_string d \<Longrightarrow> digit_string (whole_bytes d)"
  by (simp add: digit_string_def whole_bytes_def is_hex_digit_def code_point_def)

lemma padded_decode:
  assumes d: "digit_string d" and len: "length d \<le> 2 * w"
  shows "\<exists>bs. bytes_fromhex (rjust d (2 * w) CHR ''0'') = Inr bs \<and> right_aligned w d bs"
proof -
  let ?d' = "whole_bytes d"
  have ev: "even (length ?d')" by (simp add: whole_bytes_def)
  from fromhex_digit_string [OF digit_string_whole_bytes [OF d] ev]
  obtain ds where ds: "bytes_fromhex ?d' = Inr ds" "2 * length ds = length ?d'"
    by blast
  from len ds(2) have le: "length ds \<le> w"
    by (auto simp: whole_bytes_def split: if_splits)
  have "rjust d (2 * w) CHR ''0'' = replicate (2 * (w - length ds)) CHR ''0'' @ ?d'"
  proof (cases "odd (length d)")
    case True
    with ds(2) have "Suc (length d) = 2 * length ds" by (simp add: whole_bytes_def)
    with le have "2 * w - length d = Suc (2 * (w - length ds))" by arith
    with True show ?thesis by (simp add: rjust_def whole_bytes_def replicate_app_Cons_same)
  next
    case False
    with ds(2) have "length d = 2 * length ds" by (simp add: whole_bytes_def)
    with le have "2 * w - length d = 2 * (w - length ds)" by arith
    with False show ?thesis by (simp add: rjust_def whole_bytes_def)
  qed
  then have r: "bytes_fromhex (rjust d (2 * w) CHR ''0'') = Inr (replicate (w - length ds) 0 @ ds)"
    by (simp add: fromhex_zero_pairs ds(1))
  have "be_value ds = base16_value ?d'"
    using fromhex_value [OF ds(1) digit_string_whole_bytes [OF d], of 0]
    by (simp add: be_value_def base16_value_def)
  then have "be_value (replicate (w - length ds) 0 @ ds) = base16_value d"
    by (simp add: be_value_zeros base16_value_whole_bytes)
  with le ds(1) have "right_aligned w d (replicate (w - length ds) 0 @ ds)"
    by (simp add: right_aligned_def)
  with r show ?thesis by blast
qed

text \<open>
  Claim C1. For every digit text \<open>d\<close> of at most twice the width in digits, the padded
  conversions \<open>hex_to_bytes8\<close> (width 8), \<open>hex_to_bytes32\<close> (width 32) and \<open>hex_to_address\<close>
  (width 20), applied to \<open>0x\<close> followed by \<open>d\<close>, return exactly \<open>width\<close> bytes: the bytes
  of \<open>d\<close> right-aligned after leading zero bytes. \<open>hex_to_address\<close> of \<open>0x1234\<close> is 18
  zero bytes followed by 0x12 0x34.
\<close>

theorem padded_conversions_right_align:
  assumes "digit_string d"
  shows "(length d \<le> 16 \<longrightarrow>
            (\<exists>bs. hex_to_bytes8 (''0x'' @ d) = Inr bs \<and> right_aligned 8 d bs)) \<and>
         (length d \<le> 64 \<longrightarrow>
            (\<exists>bs. hex_to_bytes32 (''0x'' @ d) = Inr bs \<and> right_aligned 32 d bs)) \<and>
         (length d \<le> 40 \<longrightarrow>
            (\<exists>bs. hex_to_address (''0x'' @ d) = Inr bs \<and> right_aligned 20 d bs)) \<and>
         hex_to_address ''0x1234'' = Inr (replicate 18 0 @ [0x12, 0x34])"
proof -
  have a: "\<exists>bs. hex_to_bytes8 (''0x'' @ d) = Inr bs \<and> right_aligned 8 d bs"
    if "length d \<le> 16"
    using padded_decode [OF assms, of 8] that by (auto simp: hex_to_bytes8_def remove_hex_prefix_cons Bytes8_def)
  have b: "\<exists>bs. hex_to_bytes32 (''0x'' @ d) = Inr bs \<and> right_aligned 32 d bs"
    if "length d \<le> 64"
    using padded_decode [OF assms, of 32] that by (auto simp: hex_to_bytes32_def remove_hex_prefix_cons Bytes32_def)
  have c: "\<exists>bs. hex_to_address (''0x'' @ d) = Inr bs \<and> right_aligned 20 d bs"
    if "length d \<le> 40"
    using padded_decode [OF assms, of 20] that by (auto simp: hex_to_address_def remove_hex_prefix_cons Address_def)
  have e: "hex_to_address ''0x1234'' = Inr (replicate 18 0 @ [0x12, 0x34])"
    by (simp add: hex_to_address_def Address_def remove_hex_prefix_def has_hex_prefix_def
        startswith_def rjust_def Py_ISSPACE_def PyLong_DigitValue_def code_point_def
        eval_nat_numeral)
  from a b c e show ?thesis by blast
qed

theorem padded_conversions_right_align_witness:
  "digit_string ''abc'' \<and> length ''abc'' \<le> 16 \<and> length ''abc'' \<le> 64 \<and> length ''abc'' \<le> 40 \<and>
   hex_to_bytes8 ''0xabc'' = Inr [0, 0, 0, 0, 0, 0, 0x0A, 0xBC] \<and>
   right_aligned 8 ''abc'' [0, 0, 0, 0, 0, 0, 0x0A, 0xBC] \<and>
   (\<exists>bs. hex_to_bytes32 ''0xabc'' = Inr bs \<and> right_aligned 32 ''abc'' bs) \<and>
   (\<exists>bs. hex_to_address ''0xabc'' = Inr bs \<and> right_aligned 20 ''abc'' bs)"
proof -
  have d: "digit_string ''abc''"
    by (simp add: digit_string_def is_hex_digit_def code_point_def)
  have v: "hex_to_bytes8 ''0xabc'' = Inr [0, 0, 0, 0, 0, 0, 0x0A, 0xBC]"
    by (simp add: hex_to_bytes8_def Bytes8_def remove_hex_prefix_def has_hex_prefix_def
        startswith_def rjust_def Py_ISSPACE_def PyLong_DigitValue_def code_point_def
        eval_nat_numeral)
  note t = padded_conversions_right_align [OF d]
  from t have "\<exists>bs. hex_to_bytes8 (''0x'' @ ''abc'') = Inr bs \<and> right_aligned 8 ''abc'' bs"
    by simp
  with v have 1: "right_aligned 8 ''abc'' [0, 0, 0, 0, 0, 0, 0x0A, 0xBC]" by auto
  from t have 2: "\<exists>bs. hex_to_bytes32 ''0xabc'' = Inr bs \<and> right_aligned 32 ''abc'' bs"
    "\<exists>bs. hex_to_address ''0xabc'' = Inr bs \<and> right_aligned 20 ''abc'' bs"
    by simp_all
  from d v 1 2 show ?thesis by simp
qed

section \<open>Conversions to integers\<close>








lemma int_base16_empty: "int_base16 [] = Inl ParseError"
  by (simp add: int_base16_def TransformDecimalAndSpaceToASCII_def PyLong_FromString_def
      skip_sign_def skip_base_prefix_def)

lemma int_base16_error_kind: "int_base16 t = Inl e \<Longrightarrow> e = ParseError"
  by (auto simp: int_base16_def split: option.splits)
















lemma digit_groups_nonempty: "digit_groups b \<Longrightarrow> b \<noteq> []"
  by (auto simp: digit_groups_def)




































text \<open>
  Claim C9. \<open>hex_to_u256\<close> parses as \<open>hex_to_uint\<close> does: it fails with a \<open>ParseError\<close> on
  exactly the same inputs (those that \<open>int(text, 16)\<close> rejects), and the integer it hands
  to the constructor \<open>U256\<close> is the integer \<open>hex_to_uint\<close> returns. It checks no range
  itself: any other failure is the failure of \<open>U256\<close> on the parsed integer.
\<close>

theorem hex_to_u256_parses_as_hex_to_uint:
  "(hex_to_u256 s = Inl ParseError \<longleftrightarrow> hex_to_uint s = Inl ParseError) \<and>
   (hex_to_u256 s = Inl ParseError \<longleftrightarrow> int_base16 (remove_hex_prefix s) = Inl ParseError) \<and>
   (\<forall>v. hex_to_uint s = Inr v \<longrightarrow> hex_to_u256 s = U256 v) \<and>
   (\<forall>v. int_base16 (remove_hex_prefix s) = Inr v \<longrightarrow>
      hex_to_uint s = Uint v \<and> hex_to_u256 s = U256 v) \<and>
   (\<forall>e. hex_to_u256 s = Inl e \<and> e \<noteq> ParseError \<longrightarrow>
      (\<exists>v. int_base16 (remove_hex_prefix s) = Inr v \<and> U256 v = Inl e))"
proof (cases "int_base16 (remove_hex_prefix s)")
  case (Inl e)
  then have "e = ParseError" by (rule int_base16_error_kind)
  with Inl show ?thesis by (simp add: hex_to_u256_def hex_to_uint_def)
next
  case (Inr v)
  then show ?thesis
    by (auto simp: hex_to_u256_def hex_to_uint_def Uint_def U256_def split: if_splits)
qed

theorem hex_to_u256_parses_as_hex_to_uint_witness:
  "hex_to_uint ''0xff'' = Inr 255 \<and> hex_to_u256 ''0xff'' = Inr 255 \<and>
   hex_to_uint ''0x10000000000000000000000000000000000000000000000000000000000000000'' = Inr (2 ^ 256) \<and>
   hex_to_u256 ''0x10000000000000000000000000000000000000000000000000000000000000000'' = Inl RangeError \<and>
   hex_to_uint ''0xzz'' = Inl ParseError \<and> hex_to_u256 ''0xzz'' = Inl ParseError"
proof -
  note defs = hex_to_uint_def remove_hex_prefix_def has_hex_prefix_def startswith_def
    int_base16_def TransformDecimalAndSpaceToASCII_def PyLong_FromString_def
    skip_sign_def skip_base_prefix_def Py_ISSPACE_def PyLong_DigitValue_def
    code_point_def Uint_def
  have a: "hex_to_uint ''0xff'' = Inr 255"
    by (simp add: defs)
  have b: "hex_to_uint ''0x10000000000000000000000000000000000000000000000000000000000000000'' = Inr (2 ^ 256)"
    by (simp add: defs)
  have c: "hex_to_uint ''0xzz'' = Inl ParseError"
    by (simp add: defs)
  from a hex_to_u256_parses_as_hex_to_uint [of "''0xff''"]
  have 1: "hex_to_u256 ''0xff'' = Inr 255"
    by (simp add: U256_def)
  from b hex_to_u256_parses_as_hex_to_uint [of "''0x10000000000000000000000000000000000000000000000000000000000000000''"]
  have 2: "hex_to_u256 ''0x10000000000000000000000000000000000000000000000000000000000000000'' = Inl RangeError"
    by (simp add: U256_def)
  from c hex_to_u256_parses_as_hex_to_uint [of "''0xzz''"]
  have 3: "hex_to_u256 ''0xzz'' = Inl ParseError"
    by blast
  from a b c 1 2 3 show ?thesis by blast
qed

end
